theory Spec2Isabelle
  imports Complex_Main "HOL-Library.AList" "HOL-Library.Multiset" "HOL-Library.Sublist"
begin

section \<open>Numbers and keys (rules\_engine.py)\<close>

text \<open>
  Python's \<^verbatim>\<open>int\<close> is \<^typ>\<open>int\<close>.  A Python \<^verbatim>\<open>float\<close> is modelled by the rational number
  it denotes (type \<^typ>\<open>rat\<close>): every finite float is a rational, and the operations the engine
  applies to floats (comparison, equality as dictionary key, \<^verbatim>\<open>round(x, 2)\<close>) are
  determined by that value.  The re-rounding of a result to the nearest binary float, NaN and
  the infinities are outside the model.

  \<^verbatim>\<open>round(x, 2)\<close> rounds the exact value of \<open>x\<close> to the nearest multiple of \<open>1/100\<close>, a tie going
  to the even neighbour.
\<close>

definition round_half_even :: "rat \<Rightarrow> int" where
  "round_half_even y =
     (let f = \<lfloor>y\<rfloor>; d = y - of_int f
      in if d < 1 / 2 then f
         else if 1 / 2 < d then f + 1
         else if even f then f else f + 1)"

definition py_round2 :: "rat \<Rightarrow> rat" where
  "py_round2 x = of_int (round_half_even (x * 100)) / 100"

type_synonym key = "int \<times> rat \<times> rat"

text \<open>\<^verbatim>\<open>RulesEngine._make_key\<close>.\<close>

definition make_key :: "int \<Rightarrow> rat \<Rightarrow> rat \<Rightarrow> key" where
  "make_key days miles receipts = (days, py_round2 miles, py_round2 receipts)"

section \<open>The rules engine\<close>

text \<open>
  \<^verbatim>\<open>self.rules\<close> is a Python dictionary.  A dictionary keeps its keys in insertion order, and
  assigning to a key that is present keeps the key's position: this is an association list
  updated with \<^const>\<open>AList.update\<close>, read with \<^const>\<open>map_of\<close>.
\<close>

record RulesEngine =
  rules_file :: string
  quiet :: bool
  rules :: "(key \<times> rat) list"

text \<open>\<^verbatim>\<open>RulesEngine.add_rule\<close>.\<close>

definition add_rule :: "RulesEngine \<Rightarrow> int \<Rightarrow> rat \<Rightarrow> rat \<Rightarrow> rat \<Rightarrow> RulesEngine" where
  "add_rule e days miles receipts output =
     (let k = make_key days miles receipts
      in e\<lparr>rules := AList.update k output (rules e)\<rparr>)"

text \<open>\<^verbatim>\<open>RulesEngine.predict\<close>: \<^verbatim>\<open>self.rules.get(key, 0.0)\<close>.\<close>

definition predict :: "RulesEngine \<Rightarrow> int \<Rightarrow> rat \<Rightarrow> rat \<Rightarrow> rat" where
  "predict e days miles receipts =
     (let k = make_key days miles receipts
      in case map_of (rules e) k of Some v \<Rightarrow> v | None \<Rightarrow> 0)"

text \<open>\<^verbatim>\<open>RulesEngine.get_rule_count\<close> and \<^verbatim>\<open>RulesEngine.get_zero_count\<close>.\<close>

definition get_rule_count :: "RulesEngine \<Rightarrow> nat" where
  "get_rule_count e = length (rules e)"

definition get_zero_count :: "RulesEngine \<Rightarrow> nat" where
  "get_zero_count e = length (filter (\<lambda>(k, v). v = 0) (rules e))"

section \<open>Files\<close>

text \<open>
  The engine reads and writes JSON files.  A file is modelled by what \<^verbatim>\<open>json.load\<close> makes of
  it: a JSON object (its members in textual order), a JSON array of manifest cases, or text
  that \<^verbatim>\<open>json.load\<close> rejects; the empty file, which \<^verbatim>\<open>open(path, 'w')\<close> leaves behind before
  anything is written, is such a text and has a constructor of its own.

  A member's value is abstracted to what \<^verbatim>\<open>float(value)\<close> does with it, an array element to
  what reading its three fields does: \<open>Non_number\<close> and \<open>Bad_case\<close> stand for the values on
  which that raises.
\<close>

text \<open>
  The type \<open>exn\<close> holds exceptions below \<^verbatim>\<open>Exception\<close>, which the handlers
  \<^verbatim>\<open>except Exception\<close> of the source catch; \<open>base_exn\<close> holds the two that are not below
  it and pass every handler of the source.  Only \<^verbatim>\<open>eval\<close>, which runs the text it is given
  (\<^verbatim>\<open>exit()\<close> raises \<^verbatim>\<open>SystemExit\<close>), is modelled as raising these: a call of it raises
  one or the other, or yields a value.
\<close>

datatype exn =
  OSError | JSONDecodeError | AttributeError | TypeError | ValueError | KeyError
  | SyntaxError | NameError | ZeroDivisionError

datatype base_exn = SystemExit | KeyboardInterrupt

datatype 'a outcome = Raises exn | Escapes base_exn | Value 'a

datatype json_value = Number rat | Non_number

datatype manifest_case = Case_object int rat rat | Bad_case

datatype json_doc = JObject "(string \<times> json_value) list" | JArray "manifest_case list"

datatype file_content = Empty_file | Garbled | Json_text json_doc

record filesystem =
  files :: "string \<Rightarrow> file_content option"
  read_only :: "string set"

text \<open>\<^verbatim>\<open>with open(path, 'r') as f: json.load(f)\<close>.\<close>

definition json_load :: "filesystem \<Rightarrow> string \<Rightarrow> exn + json_doc" where
  "json_load fs path =
     (case files fs path of
        None \<Rightarrow> Inl OSError
      | Some Empty_file \<Rightarrow> Inl JSONDecodeError
      | Some Garbled \<Rightarrow> Inl JSONDecodeError
      | Some (Json_text doc) \<Rightarrow> Inr doc)"

text \<open>A dictionary built from pairs in order; a repeated key keeps its first position and
  its last value.\<close>

definition dict_of_pairs :: "('k \<times> 'v) list \<Rightarrow> ('k \<times> 'v) list" where
  "dict_of_pairs kvs = foldl (\<lambda>d (k, v). AList.update k v d) [] kvs"

definition py_float_json :: "json_value \<Rightarrow> exn + rat" where
  "py_float_json value = (case value of Number x \<Rightarrow> Inr x | Non_number \<Rightarrow> Inl TypeError)"

text \<open>
  The body of the loop of \<^verbatim>\<open>load_rules\<close>.  The builtin \<^verbatim>\<open>eval\<close> is the parameter \<open>py_eval\<close>;
  where it yields a value, the value is a key.
\<close>

fun load_items ::
  "(string \<Rightarrow> key outcome) \<Rightarrow> (string \<times> json_value) list \<Rightarrow> (key \<times> rat) list
     \<Rightarrow> (key \<times> rat) list outcome" where
  "load_items py_eval [] rs = Value rs"
| "load_items py_eval ((key_str, value) # items) rs =
     (case py_eval key_str of
        Raises x \<Rightarrow> Raises x
      | Escapes b \<Rightarrow> Escapes b
      | Value key_tuple \<Rightarrow>
          (case py_float_json value of
             Inl x \<Rightarrow> Raises x
           | Inr v \<Rightarrow> load_items py_eval items (AList.update key_tuple v rs)))"

text \<open>
  The messages of \<^verbatim>\<open>load_rules\<close>, and \<^verbatim>\<open>if not self.quiet: print(...)\<close>: what is printed, if
  anything.
\<close>

datatype load_report = Loaded nat | Error_loading exn | No_existing_file

definition print_unless_quiet :: "RulesEngine \<Rightarrow> 'a \<Rightarrow> 'a option" where
  "print_unless_quiet e message = (if quiet e then None else Some message)"

text \<open>
  \<^verbatim>\<open>RulesEngine.load_rules\<close>.  The method returns nothing: the result is the engine it leaves
  and what it printed, or the exception that passed its handler.
\<close>

definition load_rules ::
  "(string \<Rightarrow> key outcome) \<Rightarrow> filesystem \<Rightarrow> RulesEngine
     \<Rightarrow> base_exn + RulesEngine \<times> load_report option" where
  "load_rules py_eval fs e =
     (if files fs (rules_file e) \<noteq> None then
        (case json_load fs (rules_file e) of
           Inl x \<Rightarrow> Inr (e\<lparr>rules := []\<rparr>, print_unless_quiet e (Error_loading x))
         | Inr (JArray cases) \<Rightarrow>
             Inr (e\<lparr>rules := []\<rparr>, print_unless_quiet e (Error_loading AttributeError))
         | Inr (JObject members) \<Rightarrow>
             (case load_items py_eval (dict_of_pairs members) [] of
                Raises x \<Rightarrow> Inr (e\<lparr>rules := []\<rparr>, print_unless_quiet e (Error_loading x))
              | Escapes b \<Rightarrow> Inl b
              | Value rs \<Rightarrow> Inr (e\<lparr>rules := rs\<rparr>, print_unless_quiet e (Loaded (length rs)))))
      else Inr (e\<lparr>rules := []\<rparr>, print_unless_quiet e No_existing_file))"

text \<open>\<^verbatim>\<open>RulesEngine.__init__\<close>.\<close>

definition new_engine ::
  "(string \<Rightarrow> key outcome) \<Rightarrow> filesystem \<Rightarrow> string \<Rightarrow> bool
     \<Rightarrow> base_exn + RulesEngine \<times> load_report option" where
  "new_engine py_eval fs file q = load_rules py_eval fs \<lparr>rules_file = file, quiet = q, rules = []\<rparr>"

text \<open>
  \<^verbatim>\<open>RulesEngine.save_rules\<close>.  The builtin \<^verbatim>\<open>str\<close> on a key is the parameter \<open>py_str\<close>.
  \<open>save_rules_steps\<close> lists the states of the file system that the call goes through, each
  one visible to another process: \<^verbatim>\<open>open(self.rules_file, 'w')\<close> truncates the file, then
  \<^verbatim>\<open>json.dump\<close> and the end of the \<^verbatim>\<open>with\<close> block write the text (the states in which only
  a part of the text has reached the file are not listed).  When \<^verbatim>\<open>open\<close> raises, the handler
  prints and nothing is written.
\<close>

definition save_rules_steps :: "(key \<Rightarrow> string) \<Rightarrow> RulesEngine \<Rightarrow> filesystem \<Rightarrow> filesystem list" where
  "save_rules_steps py_str e fs =
     (let data = dict_of_pairs (map (\<lambda>(k, v). (py_str k, Number v)) (rules e))
      in if rules_file e \<in> read_only fs then []
         else [fs\<lparr>files := (files fs)(rules_file e \<mapsto> Empty_file)\<rparr>,
               fs\<lparr>files := (files fs)(rules_file e \<mapsto> Json_text (JObject data))\<rparr>])"

definition save_rules :: "(key \<Rightarrow> string) \<Rightarrow> RulesEngine \<Rightarrow> filesystem \<Rightarrow> filesystem" where
  "save_rules py_str e fs = last (fs # save_rules_steps py_str e fs)"

text \<open>
  \<^verbatim>\<open>RulesEngine.initialize_from_private_cases\<close>: the loop over the cases, which stops at the
  first case that raises, and the whole method, which returns the engine, the file system and
  the exception its handler caught, if any.
\<close>

fun add_cases :: "RulesEngine \<Rightarrow> manifest_case list \<Rightarrow> RulesEngine \<times> exn option" where
  "add_cases e [] = (e, None)"
| "add_cases e (Case_object days miles receipts # cases) =
     add_cases (add_rule e days miles receipts 0) cases"
| "add_cases e (Bad_case # cases) = (e, Some KeyError)"

definition initialize_from_private_cases ::
  "(key \<Rightarrow> string) \<Rightarrow> string \<Rightarrow> RulesEngine \<Rightarrow> filesystem
     \<Rightarrow> RulesEngine \<times> filesystem \<times> exn option" where
  "initialize_from_private_cases py_str private_cases_file e fs =
     (case json_load fs private_cases_file of
        Inl x \<Rightarrow> (e, fs, Some x)
      | Inr (JObject members) \<Rightarrow>
          (if members = [] then (e, save_rules py_str e fs, None) else (e, fs, Some TypeError))
      | Inr (JArray cases) \<Rightarrow>
          (case add_cases e cases of
             (e', Some x) \<Rightarrow> (e', fs, Some x)
           | (e', None) \<Rightarrow> (e', save_rules py_str e' fs, None)))"

section \<open>Error cases\<close>

record case_input =
  trip_duration_days :: int
  miles_traveled :: rat
  total_receipts_amount :: rat

record error_case =
  input :: case_input
  expected_output :: rat
  actual_output :: rat
  error_magnitude :: rat
  case_number :: int

text \<open>\<^verbatim>\<open>RulesEngine.update_rules_from_errors\<close>.\<close>

definition engine_update_rules_from_errors ::
  "(key \<Rightarrow> string) \<Rightarrow> error_case list \<Rightarrow> RulesEngine \<Rightarrow> filesystem \<Rightarrow> RulesEngine \<times> filesystem" where
  "engine_update_rules_from_errors py_str error_cases e fs =
     (let e' = foldl (\<lambda>e error_case.
                  add_rule e (trip_duration_days (input error_case))
                    (miles_traveled (input error_case))
                    (total_receipts_amount (input error_case))
                    (expected_output error_case)) e error_cases
      in (e', save_rules py_str e' fs))"

section \<open>Text (continuous\_improvement.py)\<close>

text \<open>
  A Python string is a \<^typ>\<open>string\<close> holding its UTF-8 bytes.  The character classes are the
  ASCII ones: \<^verbatim>\<open>\d\<close> is \<open>0\<close> to \<open>9\<close>, and white space (\<^verbatim>\<open>\s\<close>, \<^verbatim>\<open>str.strip\<close>) is the
  characters 9 to 13, 28 to 32.  Digits and white space beyond ASCII are outside the model.
\<close>

definition isdigit :: "char \<Rightarrow> bool" where
  "isdigit c = (c \<in> set ''0123456789'')"

definition isdigdot :: "char \<Rightarrow> bool" where
  "isdigdot c = (isdigit c \<or> c = CHR ''.'')"

definition isspace :: "char \<Rightarrow> bool" where
  "isspace c =
     (c \<in> set [CHR 0x09, CHR 0x0A, CHR 0x0B, CHR 0x0C, CHR 0x0D,
                CHR 0x1C, CHR 0x1D, CHR 0x1E, CHR 0x1F, CHR 0x20])"

text \<open>\<^verbatim>\<open>s.split('\n')\<close>, \<^verbatim>\<open>s.strip()\<close>, \<^verbatim>\<open>s.startswith(p)\<close> and \<^verbatim>\<open>p in s\<close>.\<close>

fun split_lines :: "string \<Rightarrow> string list" where
  "split_lines [] = [[]]"
| "split_lines (c # cs) =
     (if c = CHR 0x0A then [] # split_lines cs
      else (case split_lines cs of [] \<Rightarrow> [[c]] | l # ls \<Rightarrow> (c # l) # ls))"

definition strip :: "string \<Rightarrow> string" where
  "strip s = rev (dropWhile isspace (rev (dropWhile isspace s)))"

definition startswith :: "string \<Rightarrow> string \<Rightarrow> bool" where
  "startswith p s = (take (length p) s = p)"

fun contains :: "string \<Rightarrow> string \<Rightarrow> bool" where
  "contains p [] = (p = [])"
| "contains p (c # cs) = (startswith p (c # cs) \<or> contains p cs)"

text \<open>
  The four regular expressions of the source are sequences of these items: a literal text,
  \<^verbatim>\<open>(\d+)\<close>, \<^verbatim>\<open>([\d.]+)\<close>, \<^verbatim>\<open>\s*\<close> and \<^verbatim>\<open>.*?\<close>.  Both classes are capturing groups wherever
  they occur.  In each expression a greedy repetition is followed by an item that starts
  outside its class, or ends the expression, so the repetition matches the longest run and
  nothing shorter; \<^verbatim>\<open>.*?\<close> tries the shortest skip first and never crosses a line feed.
  \<open>match_here\<close> matches at the start of the text and returns the groups; \<open>re_search\<close> is
  \<^verbatim>\<open>re.search\<close>, the match at the leftmost position that has one.
\<close>

datatype tok = Lit string | Digits | DigDots | Spaces | LazyAny

fun match_here :: "tok list \<Rightarrow> string \<Rightarrow> string list option" where
  "match_here [] s = Some []"
| "match_here (Lit l # ts) s =
     (if startswith l s then match_here ts (drop (length l) s) else None)"
| "match_here (Digits # ts) s =
     (if takeWhile isdigit s = [] then None
      else map_option ((#) (takeWhile isdigit s)) (match_here ts (dropWhile isdigit s)))"
| "match_here (DigDots # ts) s =
     (if takeWhile isdigdot s = [] then None
      else map_option ((#) (takeWhile isdigdot s)) (match_here ts (dropWhile isdigdot s)))"
| "match_here (Spaces # ts) s = match_here ts (dropWhile isspace s)"
| "match_here (LazyAny # ts) s =
     (case match_here ts s of
        Some gs \<Rightarrow> Some gs
      | None \<Rightarrow>
          (case s of
             [] \<Rightarrow> None
           | c # cs \<Rightarrow> if c = CHR 0x0A then None else match_here (LazyAny # ts) cs))"

fun re_search :: "tok list \<Rightarrow> string \<Rightarrow> string list option" where
  "re_search ts [] = match_here ts []"
| "re_search ts (c # cs) =
     (case match_here ts (c # cs) of Some gs \<Rightarrow> Some gs | None \<Rightarrow> re_search ts cs)"

text \<open>\<^verbatim>\<open>m.group(i)\<close>, for \<open>i\<close> from 1.\<close>

definition group :: "string list \<Rightarrow> nat \<Rightarrow> string" where
  "group gs i = gs ! (i - 1)"

text \<open>
  \<^verbatim>\<open>int(s)\<close> on a group \<^verbatim>\<open>\d+\<close> and \<^verbatim>\<open>float(s)\<close> on a group \<^verbatim>\<open>[\d.]+\<close>: the latter raises
  \<^verbatim>\<open>ValueError\<close> unless the text has one dot at most and a digit.  The value is the decimal
  number as written; the float nearest to it is not distinguished from it.
\<close>

definition digit_val :: "char \<Rightarrow> int" where
  "digit_val c = int (length (takeWhile (\<lambda>d. d \<noteq> c) ''0123456789''))"

definition py_int :: "string \<Rightarrow> int" where
  "py_int s = foldl (\<lambda>n c. 10 * n + digit_val c) 0 s"

definition py_float :: "string \<Rightarrow> exn + rat" where
  "py_float s =
     (let ip = takeWhile isdigit s; r = dropWhile isdigit s
      in case r of
           [] \<Rightarrow> if ip = [] then Inl ValueError else Inr (of_int (py_int ip))
         | c # fp \<Rightarrow>
             if c = CHR ''.'' \<and> list_all isdigit fp \<and> (ip \<noteq> [] \<or> fp \<noteq> [])
             then Inr (of_int (py_int ip) + of_int (py_int fp) / 10 ^ length fp)
             else Inl ValueError)"

section \<open>The error report parser\<close>

definition section_marker :: string where
  "section_marker = ''Check these high-error cases:''"

text \<open>The two end markers, U+26A0 U+FE0F and U+1F4DD, in UTF-8.\<close>

definition warning_marker :: string where
  "warning_marker = [CHR 0xE2, CHR 0x9A, CHR 0xA0, CHR 0xEF, CHR 0xB8, CHR 0x8F]"

definition memo_marker :: string where
  "memo_marker = [CHR 0xF0, CHR 0x9F, CHR 0x93, CHR 0x9D]"

text \<open>\<^verbatim>\<open>Case (\d+): (\d+) days, ([\d.]+) miles, \$([\d.]+) receipts\<close>\<close>

definition case_pattern :: "tok list" where
  "case_pattern =
     [Lit ''Case '', Digits, Lit '': '', Digits, Lit '' days, '', DigDots,
      Lit '' miles, $'', DigDots, Lit '' receipts'']"

text \<open>\<^verbatim>\<open>Expected: \$([\d.]+), Got: \$([\d.]+), Error: \$([\d.]+)\<close>\<close>

definition values_pattern :: "tok list" where
  "values_pattern =
     [Lit ''Expected: $'', DigDots, Lit '', Got: $'', DigDots, Lit '', Error: $'', DigDots]"

text \<open>\<^verbatim>\<open>Exact matches.*?(\d+)\s*\(([\d.]+)%\)\<close>\<close>

definition exact_pattern :: "tok list" where
  "exact_pattern =
     [Lit ''Exact matches'', LazyAny, Digits, Spaces, Lit ''('', DigDots, Lit ''%)'']"

text \<open>\<^verbatim>\<open>Average error: \$([\d.]+)\<close>\<close>

definition avg_error_pattern :: "tok list" where
  "avg_error_pattern = [Lit ''Average error: $'', DigDots]"

text \<open>The tests of the loop body on a line, in the order of the source.\<close>

definition is_section_start :: "string \<Rightarrow> bool" where
  "is_section_start line = contains section_marker line"

definition is_section_end :: "string \<Rightarrow> bool" where
  "is_section_end line =
     (startswith warning_marker (strip line) \<or> startswith memo_marker (strip line))"

definition is_case_line :: "string \<Rightarrow> bool" where
  "is_case_line line = startswith ''Case'' (strip line)"

definition is_values_line :: "string \<Rightarrow> bool" where
  "is_values_line line = (contains ''Expected:'' line \<and> contains ''Got:'' line)"

text \<open>
  \<^verbatim>\<open>current_case\<close> is \<open>None\<close> or the four values read from a case line: case number, days,
  miles, receipts.  The two dictionaries built from a match, with the \<^verbatim>\<open>ValueError\<close> of
  \<^verbatim>\<open>float\<close>:
\<close>

type_synonym current_case = "int \<times> int \<times> rat \<times> rat"

definition case_of_match :: "string list \<Rightarrow> exn + current_case" where
  "case_of_match gs =
     (case py_float (group gs 3) of
        Inl x \<Rightarrow> Inl x
      | Inr miles \<Rightarrow>
          (case py_float (group gs 4) of
             Inl x \<Rightarrow> Inl x
           | Inr receipts \<Rightarrow> Inr (py_int (group gs 1), py_int (group gs 2), miles, receipts)))"

definition error_of_match :: "current_case \<Rightarrow> string list \<Rightarrow> exn + error_case" where
  "error_of_match cur gs =
     (case py_float (group gs 1) of
        Inl x \<Rightarrow> Inl x
      | Inr expected \<Rightarrow>
          (case py_float (group gs 2) of
             Inl x \<Rightarrow> Inl x
           | Inr actual \<Rightarrow>
               (case py_float (group gs 3) of
                  Inl x \<Rightarrow> Inl x
                | Inr magnitude \<Rightarrow>
                    (case cur of (number, days, miles, receipts) \<Rightarrow>
                       Inr \<lparr>input = \<lparr>trip_duration_days = days, miles_traveled = miles,
                                      total_receipts_amount = receipts\<rparr>,
                            expected_output = expected, actual_output = actual,
                            error_magnitude = magnitude, case_number = number\<rparr>))))"

text \<open>
  The \<^verbatim>\<open>for line in lines\<close> loop of \<^verbatim>\<open>extract_errors_from_eval_output\<close>, with its state
  \<^verbatim>\<open>in_error_section\<close>, \<^verbatim>\<open>current_case\<close>, \<^verbatim>\<open>errors\<close>.  An exception leaves the loop and the
  method.
\<close>

fun parse_lines ::
  "string list \<Rightarrow> bool \<Rightarrow> current_case option \<Rightarrow> error_case list \<Rightarrow> exn + error_case list" where
  "parse_lines [] in_error_section cur errors = Inr errors"
| "parse_lines (line # lines) in_error_section cur errors =
     (if is_section_start line then parse_lines lines True cur errors
      else if in_error_section \<and> is_section_end line then Inr errors
      else if in_error_section \<and> is_case_line line then
        (case re_search case_pattern line of
           None \<Rightarrow> parse_lines lines in_error_section cur errors
         | Some gs \<Rightarrow>
             (case case_of_match gs of
                Inl x \<Rightarrow> Inl x
              | Inr c \<Rightarrow> parse_lines lines in_error_section (Some c) errors))
      else if in_error_section \<and> is_values_line line \<and> cur \<noteq> None then
        (case re_search values_pattern line of
           None \<Rightarrow> parse_lines lines in_error_section cur errors
         | Some gs \<Rightarrow>
             (case error_of_match (the cur) gs of
                Inl x \<Rightarrow> Inl x
              | Inr error_case \<Rightarrow> parse_lines lines in_error_section None (errors @ [error_case])))
      else parse_lines lines in_error_section cur errors)"

text \<open>
  \<^verbatim>\<open>errors.sort(key=..., reverse=True)\<close> is a stable sort, also with \<^verbatim>\<open>reverse=True\<close>: records
  with equal keys keep their order.  \<^verbatim>\<open>errors[:n]\<close> counts a negative \<open>n\<close> from the end.
\<close>

definition sort_by_magnitude :: "error_case list \<Rightarrow> error_case list" where
  "sort_by_magnitude errors = sort_key (\<lambda>x. - error_magnitude x) errors"

definition py_slice_to :: "int \<Rightarrow> 'a list \<Rightarrow> 'a list" where
  "py_slice_to n xs = (if 0 \<le> n then take (nat n) xs else take (nat (int (length xs) + n)) xs)"

definition top_n :: "int \<Rightarrow> error_case list \<Rightarrow> error_case list" where
  "top_n n errors = py_slice_to n (sort_by_magnitude errors)"

text \<open>\<^verbatim>\<open>ContinuousImprovement.extract_errors_from_eval_output\<close>.\<close>

definition extract_errors_from_eval_output :: "int \<Rightarrow> string \<Rightarrow> exn + error_case list" where
  "extract_errors_from_eval_output top_n_errors eval_output =
     (case parse_lines (split_lines eval_output) False None [] of
        Inl x \<Rightarrow> Inl x
      | Inr errors \<Rightarrow> Inr (top_n top_n_errors errors))"

text \<open>\<^verbatim>\<open>ContinuousImprovement.extract_score_from_output\<close>.\<close>

definition extract_score_from_output :: "string \<Rightarrow> exn + rat" where
  "extract_score_from_output output =
     (case re_search exact_pattern output of
        Some exact_match \<Rightarrow> py_float (group exact_match 2)
      | None \<Rightarrow>
          (case re_search avg_error_pattern output of
             Some avg_error_match \<Rightarrow>
               (case py_float (group avg_error_match 1) of
                  Inl x \<Rightarrow> Inl x
                | Inr avg_error \<Rightarrow> Inr (max 0 (100 - avg_error)))
           | None \<Rightarrow> Inr 0))"

section \<open>The improvement loop\<close>

record ContinuousImprovement =
  engine :: RulesEngine
  top_n_errors :: int
  iteration :: int

text \<open>\<^verbatim>\<open>ContinuousImprovement.__init__\<close>.\<close>

definition new_improvement ::
  "(string \<Rightarrow> key outcome) \<Rightarrow> filesystem \<Rightarrow> string \<Rightarrow> int
     \<Rightarrow> base_exn + ContinuousImprovement" where
  "new_improvement py_eval fs file n =
     (case new_engine py_eval fs file False of
        Inl b \<Rightarrow> Inl b
      | Inr (e, printed) \<Rightarrow> Inr \<lparr>engine = e, top_n_errors = n, iteration = 0\<rparr>)"

text \<open>\<^verbatim>\<open>ContinuousImprovement.initialize_rules\<close>.\<close>

definition initialize_rules ::
  "(key \<Rightarrow> string) \<Rightarrow> ContinuousImprovement \<Rightarrow> filesystem \<Rightarrow> ContinuousImprovement \<times> filesystem" where
  "initialize_rules py_str ci fs =
     (case initialize_from_private_cases py_str ''private_cases.json'' (engine ci) fs of
        (e', fs', x) \<Rightarrow> (ci\<lparr>engine := e'\<rparr>, fs'))"

text \<open>
  What \<^verbatim>\<open>subprocess.run(['bash', 'eval.sh'], ...)\<close> does: it raises, or the process completes
  with a return code, its standard output and its standard error.
\<close>

datatype run_result = Raised exn | Completed int string string

text \<open>\<^verbatim>\<open>ContinuousImprovement.run_evaluation\<close>, on the result of the harness.\<close>

definition run_evaluation :: "int \<Rightarrow> run_result \<Rightarrow> rat \<times> error_case list" where
  "run_evaluation n result =
     (case result of
        Raised x \<Rightarrow> (0, [])
      | Completed returncode stdout stderr \<Rightarrow>
          if returncode \<noteq> 0 then (0, [])
          else (case extract_errors_from_eval_output n stdout of
                  Inl x \<Rightarrow> (0, [])
                | Inr errors \<Rightarrow>
                    (case extract_score_from_output stdout of
                       Inl x \<Rightarrow> (0, [])
                     | Inr score \<Rightarrow> (score, errors))))"

text \<open>\<^verbatim>\<open>ContinuousImprovement.update_rules_from_errors\<close>.\<close>

definition update_rules_from_errors ::
  "(key \<Rightarrow> string) \<Rightarrow> error_case list \<Rightarrow> ContinuousImprovement \<Rightarrow> filesystem
     \<Rightarrow> ContinuousImprovement \<times> filesystem" where
  "update_rules_from_errors py_str errors ci fs =
     (if errors = [] then (ci, fs)
      else (case engine_update_rules_from_errors py_str errors (engine ci) fs of
              (e', fs') \<Rightarrow> (ci\<lparr>engine := e'\<rparr>, fs')))"

text \<open>
  \<^verbatim>\<open>ContinuousImprovement.run_iteration\<close>.  The harness is an external process: \<open>harness\<close>
  gives the result of its run from the number of the iteration and the files it finds; it
  writes none of the modelled files.
\<close>

definition run_iteration ::
  "(int \<Rightarrow> filesystem \<Rightarrow> run_result) \<Rightarrow> (key \<Rightarrow> string) \<Rightarrow> ContinuousImprovement \<Rightarrow> filesystem
     \<Rightarrow> (rat \<times> nat) \<times> ContinuousImprovement \<times> filesystem" where
  "run_iteration harness py_str ci fs =
     (let ci1 = ci\<lparr>iteration := iteration ci + 1\<rparr>;
          (score, errors) = run_evaluation (top_n_errors ci1) (harness (iteration ci1) fs);
          (ci2, fs2) = update_rules_from_errors py_str errors ci1 fs;
          zero_count = get_zero_count (engine ci2)
      in ((score, zero_count), ci2, fs2))"

text \<open>
  The \<^verbatim>\<open>for iteration in range(max_iterations)\<close> loop of \<^verbatim>\<open>run_continuous_improvement\<close>.
  Its local variables are the record \<open>loop_state\<close> (\<^verbatim>\<open>score\<close> is unbound before the first
  iteration).  The loop is left by the first \<^verbatim>\<open>break\<close> (target reached), by the second
  \<^verbatim>\<open>break\<close> (no improvement) or when the range is used up; these exits are named as the
  states of the specification.
\<close>

datatype loop_exit = CONVERGED | STAGNATED | EXHAUSTED

record loop_state =
  best_score :: rat
  iterations_without_improvement :: nat
  last_score :: "rat option"

definition max_stagnant_iterations :: nat where
  "max_stagnant_iterations = 2"

fun improvement_loop ::
  "(int \<Rightarrow> filesystem \<Rightarrow> run_result) \<Rightarrow> (key \<Rightarrow> string) \<Rightarrow> rat \<Rightarrow> nat \<Rightarrow> loop_state
     \<Rightarrow> ContinuousImprovement \<Rightarrow> filesystem
     \<Rightarrow> loop_exit \<times> loop_state \<times> ContinuousImprovement \<times> filesystem" where
  "improvement_loop harness py_str target_score 0 ls ci fs = (EXHAUSTED, ls, ci, fs)"
| "improvement_loop harness py_str target_score (Suc n) ls ci fs =
     (case run_iteration harness py_str ci fs of
        ((score, zero_count), ci', fs') \<Rightarrow>
          if target_score \<le> score then (CONVERGED, ls\<lparr>last_score := Some score\<rparr>, ci', fs')
          else
            let ls' = (if best_score ls < score
                       then ls\<lparr>best_score := score, iterations_without_improvement := 0,
                               last_score := Some score\<rparr>
                       else ls\<lparr>iterations_without_improvement :=
                                 iterations_without_improvement ls + 1,
                               last_score := Some score\<rparr>)
            in if max_stagnant_iterations \<le> iterations_without_improvement ls'
               then (STAGNATED, ls', ci', fs')
               else improvement_loop harness py_str target_score n ls' ci' fs')"

text \<open>
  \<^verbatim>\<open>ContinuousImprovement.run_continuous_improvement\<close>.  After the loop the method prints the
  final score (\<^verbatim>\<open>NameError\<close> when no iteration ran) and the final completion rate
  (\<^verbatim>\<open>ZeroDivisionError\<close> when the store is empty); the last component is that rate or the
  exception.
\<close>

definition run_continuous_improvement ::
  "(int \<Rightarrow> filesystem \<Rightarrow> run_result) \<Rightarrow> (key \<Rightarrow> string) \<Rightarrow> int \<Rightarrow> rat
     \<Rightarrow> ContinuousImprovement \<Rightarrow> filesystem
     \<Rightarrow> loop_exit \<times> ContinuousImprovement \<times> filesystem \<times> (exn + rat)" where
  "run_continuous_improvement harness py_str max_iterations target_score ci fs =
     (let (ci1, fs1) = (if get_rule_count (engine ci) = 0 then initialize_rules py_str ci fs
                        else (ci, fs));
          ls0 = \<lparr>best_score = 0, iterations_without_improvement = 0, last_score = None\<rparr>
      in case improvement_loop harness py_str target_score (nat max_iterations) ls0 ci1 fs1 of
           (exit, ls, ci2, fs2) \<Rightarrow>
             (exit, ci2, fs2,
              (case last_score ls of
                 None \<Rightarrow> Inl NameError
               | Some score \<Rightarrow>
                   if get_rule_count (engine ci2) = 0 then Inl ZeroDivisionError
                   else Inr (of_nat (get_rule_count (engine ci2) - get_zero_count (engine ci2))
                             / of_nat (get_rule_count (engine ci2)) * 100))))"

section \<open>Notions used to state the properties\<close>

text \<open>
  The lines of the error section of a report: those after the first line that holds the
  section marker, up to the line at which the parser stops, the first one that starts with an
  end marker (a line that holds the section marker is tested for that first and does not end
  the section).  Among them, the lines that the parser takes as \<^verbatim>\<open>Case\<close> lines.
\<close>

definition error_section :: "string list \<Rightarrow> string list" where
  "error_section lines =
     takeWhile (\<lambda>line. is_section_start line \<or> \<not> is_section_end line)
       (drop 1 (dropWhile (\<lambda>line. \<not> is_section_start line) lines))"

definition case_lines :: "string list \<Rightarrow> string list" where
  "case_lines lines = filter (\<lambda>line. \<not> is_section_start line \<and> is_case_line line) lines"


text \<open>
  The order that the specification states for \<open>top_n\<close>: descending by magnitude, records of
  equal magnitude by ascending case identifier.
\<close>

definition spec_tie_order :: "error_case list \<Rightarrow> bool" where
  "spec_tie_order xs =
     sorted_wrt (\<lambda>a b. error_magnitude b < error_magnitude a \<or>
                        (error_magnitude a = error_magnitude b \<and> case_number a \<le> case_number b)) xs"

text \<open>
  Sample inputs: the two example lines in the comments of
  \<^verbatim>\<open>extract_errors_from_eval_output\<close>, the record they parse to, a report made of them, and an
  error record with a given case number and magnitude.
\<close>

abbreviation sample_case_line :: string where
  "sample_case_line \<equiv> ''    Case 669: 7 days, 1033 miles, $1013.03 receipts''"

abbreviation sample_values_line :: string where
  "sample_values_line \<equiv> ''      Expected: $2119.83, Got: $0.00, Error: $2119.83''"

abbreviation sample_record :: error_case where
  "sample_record \<equiv>
     \<lparr>input = \<lparr>trip_duration_days = 7, miles_traveled = 1033, total_receipts_amount = 1013.03\<rparr>,
      expected_output = 2119.83, actual_output = 0, error_magnitude = 2119.83,
      case_number = 669\<rparr>"

abbreviation sample_report :: string where
  "sample_report \<equiv>
     ''Check these high-error cases:'' @ [CHR 0x0A] @ sample_case_line @ [CHR 0x0A]
       @ sample_values_line @ [CHR 0x0A] @ sample_values_line"

text \<open>A report whose error section ends at once, before a case line and a values line.\<close>

abbreviation sample_ended_report :: string where
  "sample_ended_report \<equiv>
     ''Check these high-error cases:'' @ [CHR 0x0A] @ warning_marker @ '' Tips'' @ [CHR 0x0A]
       @ sample_case_line @ [CHR 0x0A] @ sample_values_line"

abbreviation sample_error :: "int \<Rightarrow> rat \<Rightarrow> error_case" where
  "sample_error number magnitude \<equiv>
     \<lparr>input = \<lparr>trip_duration_days = 1, miles_traveled = 10, total_receipts_amount = 5\<rparr>,
      expected_output = magnitude, actual_output = 0, error_magnitude = magnitude,
      case_number = number\<rparr>"


text \<open>
  More sample inputs: a file system with no file and one with a single JSON file, an engine
  on \<^verbatim>\<open>rules.json\<close> with given rules, an improvement process around it, a harness that gives
  the same result each time, and two reports.  For the builtins \<^verbatim>\<open>str\<close> and \<^verbatim>\<open>eval\<close>:
  \<open>no_text\<close> where the text of a key plays no part, \<open>sample_str\<close> with the text of the key
  \<^verbatim>\<open>(1, 10.0, 5.0)\<close>, and \<open>sample_eval\<close>, which evaluates the text \<^verbatim>\<open>(1, 47.0, 17.97)\<close>,
  raises \<^verbatim>\<open>SystemExit\<close> on \<^verbatim>\<open>exit()\<close> and \<^verbatim>\<open>SyntaxError\<close> on any other text (as \<^verbatim>\<open>eval\<close>
  does on \<^verbatim>\<open>(1, 47.0\<close>); and an engine that is quiet, as \<^verbatim>\<open>load_engine\<close> makes it.
\<close>

abbreviation no_files :: filesystem where
  "no_files \<equiv> \<lparr>files = (\<lambda>path. None), read_only = {}\<rparr>"

abbreviation no_text :: "key \<Rightarrow> string" where
  "no_text \<equiv> (\<lambda>k. [])"

abbreviation one_file :: "string \<Rightarrow> json_doc \<Rightarrow> filesystem" where
  "one_file path doc \<equiv> \<lparr>files = (\<lambda>p. if p = path then Some (Json_text doc) else None), read_only = {}\<rparr>"

abbreviation sample_engine :: "(key \<times> rat) list \<Rightarrow> RulesEngine" where
  "sample_engine rs \<equiv> \<lparr>rules_file = ''rules.json'', quiet = False, rules = rs\<rparr>"



abbreviation sample_str :: "key \<Rightarrow> string" where
  "sample_str \<equiv> (\<lambda>k. if k = (1, 10, 5) then ''(1, 10.0, 5.0)'' else [])"

abbreviation sample_improvement :: ContinuousImprovement where
  "sample_improvement \<equiv>
     \<lparr>engine = sample_engine [((1, 10, 5), 0)], top_n_errors = 10, iteration = 0\<rparr>"

abbreviation constant_harness :: "run_result \<Rightarrow> int \<Rightarrow> filesystem \<Rightarrow> run_result" where
  "constant_harness result \<equiv> (\<lambda>i fs. result)"

abbreviation report_scoring_10 :: run_result where
  "report_scoring_10 \<equiv> Completed 0 ''Exact matches: 100 (10.0%)'' []"

abbreviation report_scoring_96 :: run_result where
  "report_scoring_96 \<equiv> Completed 0 ''Exact matches: 960 (96.0%)'' []"

section \<open>Key normalization\<close>

lemma round_half_even_of_int: "round_half_even (of_int k) = k"
  by (simp add: round_half_even_def)

lemma py_round2_scaled: "py_round2 x * 100 = of_int (round_half_even (x * 100))"
  by (simp add: py_round2_def)

lemma py_round2_idem: "py_round2 (py_round2 x) = py_round2 x"
proof -
  have "py_round2 (py_round2 x) = of_int (round_half_even (py_round2 x * 100)) / 100"
    by (simp only: py_round2_def)
  also have "\<dots> = of_int (round_half_even (of_int (round_half_even (x * 100)))) / 100"
    by (simp only: py_round2_scaled)
  also have "\<dots> = py_round2 x"
    by (simp only: round_half_even_of_int py_round2_def)
  finally show ?thesis .
qed

text \<open>
  Claim C9.  Key normalization is idempotent: for every integer \<open>d\<close> and all numbers \<open>m\<close> and
  \<open>r\<close>, the key made from \<open>d\<close>, \<open>round(m, 2)\<close> and \<open>round(r, 2)\<close> is the key made from \<open>d\<close>,
  \<open>m\<close> and \<open>r\<close>.
\<close>

theorem make_key_idempotent:
  "make_key d (py_round2 m) (py_round2 r) = make_key d m r"
  by (simp add: make_key_def py_round2_idem)

section \<open>Upsert and lookup\<close>

lemma predict_add_rule_same: "predict (add_rule e d m r a) d m r = a"
  by (simp add: predict_def add_rule_def update_conv')

lemma rules_add_rule:
  "map_of (rules (add_rule e d m r a)) = (map_of (rules e))(make_key d m r \<mapsto> a)"
  by (simp add: add_rule_def update_conv')

lemma map_of_upserts_other:
  "map_of (rules e) k = None \<Longrightarrow> \<forall>(d, m, r, a) \<in> set ups. make_key d m r \<noteq> k \<Longrightarrow>
   map_of (rules (foldl (\<lambda>e (d, m, r, a). add_rule e d m r a) e ups)) k = None"
proof (induction ups arbitrary: e)
  case Nil
  then show ?case by simp
next
  case (Cons u ups)
  obtain d m r a where u: "u = (d, m, r, a)" by (cases u) auto
  from Cons.prems u have ne: "make_key d m r \<noteq> k" by auto
  have "map_of (rules (add_rule e d m r a)) k = None"
    using Cons.prems(1) ne by (simp add: rules_add_rule)
  moreover have "\<forall>(d, m, r, a) \<in> set ups. make_key d m r \<noteq> k"
    using Cons.prems(2) by auto
  ultimately show ?case
    using Cons.IH[of "add_rule e d m r a"] u by simp
qed

text \<open>
  Claim C1.  For every store, \<open>predict\<close> after \<open>add_rule\<close> with the same raw inputs returns
  the amount stored.  And when a store has no entry for the normalized key of some raw inputs,
  then after any sequence of upserts none of which normalizes to that key (be it because its
  miles or receipts round to another 2-decimal value), \<open>predict\<close> on those inputs returns 0.
\<close>

theorem predict_upsert:
  "predict (add_rule e d m r a) d m r = a \<and>
   (map_of (rules e0) (make_key d' m' r') = None \<and>
    (\<forall>(d, m, r, a) \<in> set ups. make_key d m r \<noteq> make_key d' m' r') \<longrightarrow>
    predict (foldl (\<lambda>e (d, m, r, a). add_rule e d m r a) e0 ups) d' m' r' = 0)"
proof (intro conjI impI)
  show "predict (add_rule e d m r a) d m r = a"
    by (rule predict_add_rule_same)
next
  assume A: "map_of (rules e0) (make_key d' m' r') = None \<and>
    (\<forall>(d, m, r, a) \<in> set ups. make_key d m r \<noteq> make_key d' m' r')"
  have "map_of (rules (foldl (\<lambda>e (d, m, r, a). add_rule e d m r a) e0 ups)) (make_key d' m' r') = None"
    by (rule map_of_upserts_other) (use A in blast)+
  then show "predict (foldl (\<lambda>e (d, m, r, a). add_rule e d m r a) e0 ups) d' m' r' = 0"
    by (simp add: predict_def)
qed

text \<open>
  The scenario of the specification: after the upsert of 120.33 for (3, 100.5, 45.0), the
  same inputs give 120.33 and (3, 100.51, 45.0), another rounded key, gives 0.
\<close>

theorem predict_upsert_witness:
  "predict (add_rule \<lparr>rules_file = ''rules.json'', quiet = True, rules = []\<rparr> 3 100.5 45 120.33)
     3 100.5 45 = 120.33 \<and>
   map_of (rules \<lparr>rules_file = ''rules.json'', quiet = True, rules = []\<rparr>) (make_key 3 100.51 45)
     = None \<and>
   make_key 3 100.5 45 \<noteq> make_key 3 100.51 45 \<and>
   predict (foldl (\<lambda>e (d, m, r, a). add_rule e d m r a)
              \<lparr>rules_file = ''rules.json'', quiet = True, rules = []\<rparr> [(3, 100.5, 45, 120.33)])
     3 100.51 45 = 0"
proof -
  let ?e = "\<lparr>rules_file = ''rules.json'', quiet = True, rules = []\<rparr>"
  have h1: "map_of (rules ?e) (make_key 3 100.51 45) = None"
    by simp
  have h2: "\<forall>(d, m, r, a) \<in> set [(3, 100.5, 45, 120.33::rat)].
              make_key d m r \<noteq> make_key 3 100.51 45"
    by (simp add: make_key_def py_round2_def round_half_even_def)
  have h3: "make_key 3 100.5 45 \<noteq> make_key 3 100.51 45"
    by (simp add: make_key_def py_round2_def round_half_even_def)
  note inst = predict_upsert[of ?e 3 "100.5" 45 "120.33" ?e 3 "100.51" 45
      "[(3, 100.5, 45, 120.33)]"]
  have c1: "predict (add_rule ?e 3 100.5 45 120.33) 3 100.5 45 = 120.33"
    by (rule inst[THEN conjunct1])
  have c2: "predict (foldl (\<lambda>e (d, m, r, a). add_rule e d m r a) ?e [(3, 100.5, 45, 120.33)])
              3 100.51 45 = 0"
    by (rule inst[THEN conjunct2, THEN mp, OF conjI[OF h1 h2]])
  show ?thesis
    by (rule conjI[OF c1 conjI[OF h1 conjI[OF h3 c2]]])
qed

section \<open>Selecting the largest errors\<close>

lemma py_slice_to_take: "\<exists>m. py_slice_to n xs = take m xs"
  by (auto simp add: py_slice_to_def)

lemma length_top_n: "length (top_n n errors) \<le> length errors"
proof -
  obtain m where "top_n n errors = take m (sort_by_magnitude errors)"
    unfolding top_n_def using py_slice_to_take by blast
  then show ?thesis by (simp add: sort_by_magnitude_def)
qed

lemma sorted_sort_by_magnitude:
  "sorted_wrt (\<lambda>a b. error_magnitude b \<le> error_magnitude a) (sort_by_magnitude errors)"
proof -
  have "sorted (map (\<lambda>x. - error_magnitude x) (sort_by_magnitude errors))"
    unfolding sort_by_magnitude_def by (rule sorted_sort_key)
  then show ?thesis by (simp add: sorted_map)
qed

lemma stable_sort_by_magnitude:
  "filter (\<lambda>x. error_magnitude x = k) (sort_by_magnitude errors)
     = filter (\<lambda>x. error_magnitude x = k) errors"
  using sort_key_stable[of "\<lambda>x. - error_magnitude x" "- k" errors]
  by (simp add: sort_by_magnitude_def)

lemma filter_take_prefix: "prefix (filter P (take m xs)) (filter P xs)"
proof -
  have "filter P xs = filter P (take m xs) @ filter P (drop m xs)"
    by (metis append_take_drop_id filter_append)
  then show ?thesis by (simp add: prefix_def)
qed

text \<open>
  Claim C6, as the code has it.  For every list of parsed error records and every \<open>n \<ge> 0\<close>,
  \<open>top_n\<close> returns at most \<open>n\<close> records; for every \<open>n\<close> the records returned are sorted
  descending by error magnitude, those of one magnitude come in the order in which the parser
  produced them (the sort is stable; the case identifier plays no part), and they are records
  of the input.
\<close>

theorem top_n_stable:
  "(0 \<le> n \<longrightarrow> length (top_n n errors) \<le> nat n) \<and>
   sorted_wrt (\<lambda>a b. error_magnitude b \<le> error_magnitude a) (top_n n errors) \<and>
   prefix (filter (\<lambda>x. error_magnitude x = k) (top_n n errors))
          (filter (\<lambda>x. error_magnitude x = k) errors) \<and>
   mset (top_n n errors) \<subseteq># mset errors"
proof (intro conjI impI)
  assume "0 \<le> n"
  then show "length (top_n n errors) \<le> nat n"
    by (simp add: top_n_def py_slice_to_def)
next
  obtain m where m: "top_n n errors = take m (sort_by_magnitude errors)"
    unfolding top_n_def using py_slice_to_take by blast
  show "sorted_wrt (\<lambda>a b. error_magnitude b \<le> error_magnitude a) (top_n n errors)"
    unfolding m by (rule sorted_wrt_take) (rule sorted_sort_by_magnitude)
  show "prefix (filter (\<lambda>x. error_magnitude x = k) (top_n n errors))
          (filter (\<lambda>x. error_magnitude x = k) errors)"
    using filter_take_prefix[of "\<lambda>x. error_magnitude x = k" m "sort_by_magnitude errors"]
    by (simp add: m stable_sort_by_magnitude)
  have "mset (take m (sort_by_magnitude errors)) \<subseteq># mset (sort_by_magnitude errors)"
    by (metis append_take_drop_id mset_subset_eq_add_left union_code)
  then show "mset (top_n n errors) \<subseteq># mset errors"
    by (simp add: m sort_by_magnitude_def)
qed

theorem top_n_stable_witness:
  "(0::int) \<le> 1 \<and>
   length (top_n 1 [sample_error 5 10, sample_error 3 10]) \<le> nat 1 \<and>
   top_n 1 [sample_error 5 10, sample_error 3 10] = [sample_error 5 10]"
proof -
  have h: "(0::int) \<le> 1" by simp
  have c: "length (top_n 1 [sample_error 5 10, sample_error 3 10]) \<le> nat 1"
    by (rule top_n_stable[of 1 "[sample_error 5 10, sample_error 3 10]" 0,
          THEN conjunct1, THEN mp, OF h])
  have v: "top_n 1 [sample_error 5 10, sample_error 3 10] = [sample_error 5 10]"
    by (simp add: top_n_def py_slice_to_def sort_by_magnitude_def)
  show ?thesis by (rule conjI[OF h conjI[OF c v]])
qed

text \<open>
  The claim as the specification states it fails: two records of magnitude 10, case 5 parsed
  before case 3, come back as 5, 3, which is not ascending by case identifier; and for
  \<open>n = -1\<close> three records give two, not at most \<open>n\<close>.
\<close>

theorem top_n_tie_counterexample:
  "\<not> spec_tie_order (top_n 10 [sample_error 5 10, sample_error 3 10]) \<and>
   map case_number (top_n 10 [sample_error 5 10, sample_error 3 10]) = [5, 3] \<and>
   length (top_n (- 1) [sample_error 5 10, sample_error 3 10, sample_error 1 7]) = 2"
  by (simp add: top_n_def py_slice_to_def sort_by_magnitude_def spec_tie_order_def)

section \<open>The score of a report\<close>

lemma takeWhile_run: "list_all P ds \<Longrightarrow> \<not> P c \<Longrightarrow> takeWhile P (ds @ c # r) = ds"
  by (induction ds) auto

lemma dropWhile_run: "list_all P ds \<Longrightarrow> \<not> P c \<Longrightarrow> dropWhile P (ds @ c # r) = c # r"
  by (induction ds) auto

lemma match_exact_tail:
  assumes "ds \<noteq> []" "list_all isdigit ds" "tok \<noteq> []" "list_all isdigdot tok"
  shows "match_here [Digits, Spaces, Lit ''('', DigDots, Lit ''%)''] (ds @ '' ('' @ tok @ ''%)'' @ rest)
           = Some [ds, tok]"
proof -
  have sp: "\<not> isdigit CHR '' ''" and pc: "\<not> isdigdot CHR ''%''" and par: "\<not> isspace CHR ''(''"
    by (simp_all add: isdigit_def isdigdot_def isspace_def)
  have t1: "takeWhile isdigit (ds @ CHR '' '' # CHR ''('' # tok @ CHR ''%'' # CHR '')'' # rest) = ds"
    by (rule takeWhile_run[OF assms(2) sp])
  have d1: "dropWhile isdigit (ds @ CHR '' '' # CHR ''('' # tok @ CHR ''%'' # CHR '')'' # rest)
              = CHR '' '' # CHR ''('' # tok @ CHR ''%'' # CHR '')'' # rest"
    by (rule dropWhile_run[OF assms(2) sp])
  have t2: "takeWhile isdigdot (tok @ CHR ''%'' # CHR '')'' # rest) = tok"
    by (rule takeWhile_run[OF assms(4) pc])
  have d2: "dropWhile isdigdot (tok @ CHR ''%'' # CHR '')'' # rest) = CHR ''%'' # CHR '')'' # rest"
    by (rule dropWhile_run[OF assms(4) pc])
  show ?thesis
    using assms(1,3) by (simp add: t1 d1 t2 d2 startswith_def isspace_def)
qed

lemma search_exact_line:
  assumes "ds \<noteq> []" "list_all isdigit ds" "tok \<noteq> []" "list_all isdigdot tok"
  shows "re_search exact_pattern (''Exact matches: '' @ ds @ '' ('' @ tok @ ''%)'' @ rest)
           = Some [ds, tok]"
proof -
  have nd: "\<not> isdigit CHR '':''" "\<not> isdigit CHR '' ''"
    by (simp_all add: isdigit_def)
  have "match_here exact_pattern (''Exact matches: '' @ ds @ '' ('' @ tok @ ''%)'' @ rest)
          = Some [ds, tok]"
    using match_exact_tail[OF assms, of rest] nd
    by (simp add: exact_pattern_def startswith_def)
  then show ?thesis by simp
qed

text \<open>
  Claim C7.  When the report holds an exact-match percentage (the first expression matches),
  \<open>extract_score_from_output\<close> returns that percentage, whatever average-error line the
  report has; so for a report that starts with a line \<^verbatim>\<open>Exact matches: <digits> (<number>%)\<close>.
  Otherwise, when the report holds an average error \<open>a\<close>, it returns \<open>max 0 (100 - a)\<close>; when
  it holds neither it returns 0.  (\<^verbatim>\<open>float\<close> raises on a number with two dots; then the method
  raises.)
\<close>

theorem extract_score_cases:
  "(ds \<noteq> [] \<and> list_all isdigit ds \<and> tok \<noteq> [] \<and> list_all isdigdot tok \<longrightarrow>
      extract_score_from_output (''Exact matches: '' @ ds @ '' ('' @ tok @ ''%)'' @ rest)
        = py_float tok) \<and>
   (re_search exact_pattern out1 = Some gs1 \<longrightarrow>
      extract_score_from_output out1 = py_float (group gs1 2)) \<and>
   (re_search exact_pattern out2 = None \<and> re_search avg_error_pattern out2 = Some gs2 \<and>
    py_float (group gs2 1) = Inr a \<longrightarrow>
      extract_score_from_output out2 = Inr (max 0 (100 - a))) \<and>
   (re_search exact_pattern out3 = None \<and> re_search avg_error_pattern out3 = None \<longrightarrow>
      extract_score_from_output out3 = Inr 0)"
proof (intro conjI impI)
  assume "ds \<noteq> [] \<and> list_all isdigit ds \<and> tok \<noteq> [] \<and> list_all isdigdot tok"
  then have "re_search exact_pattern (''Exact matches: '' @ ds @ '' ('' @ tok @ ''%)'' @ rest)
               = Some [ds, tok]"
    using search_exact_line by blast
  then show "extract_score_from_output (''Exact matches: '' @ ds @ '' ('' @ tok @ ''%)'' @ rest)
               = py_float tok"
    by (simp add: extract_score_from_output_def group_def)
next
  assume "re_search exact_pattern out1 = Some gs1"
  then show "extract_score_from_output out1 = py_float (group gs1 2)"
    by (simp add: extract_score_from_output_def)
next
  assume "re_search exact_pattern out2 = None \<and> re_search avg_error_pattern out2 = Some gs2 \<and>
    py_float (group gs2 1) = Inr a"
  then show "extract_score_from_output out2 = Inr (max 0 (100 - a))"
    by (simp add: extract_score_from_output_def)
next
  assume "re_search exact_pattern out3 = None \<and> re_search avg_error_pattern out3 = None"
  then show "extract_score_from_output out3 = Inr 0"
    by (simp add: extract_score_from_output_def)
qed

text \<open>
  The scenarios of the specification: 25.0 for \<^verbatim>\<open>Exact matches: 50 (25.0%)\<close>, also after an
  average-error line; 90.0 for \<^verbatim>\<open>Average error: $10.00\<close> alone; 0 for neither.
\<close>

theorem extract_score_cases_witness:
  "extract_score_from_output ''Exact matches: 50 (25.0%)'' = Inr 25 \<and>
   re_search exact_pattern (''Average error: $10.00'' @ [CHR 0x0A] @ ''Exact matches: 50 (25.0%)'')
     = Some [''50'', ''25.0''] \<and>
   extract_score_from_output (''Average error: $10.00'' @ [CHR 0x0A] @ ''Exact matches: 50 (25.0%)'')
     = Inr 25 \<and>
   re_search exact_pattern ''Average error: $10.00'' = None \<and>
   re_search avg_error_pattern ''Average error: $10.00'' = Some [''10.00''] \<and>
   extract_score_from_output ''Average error: $10.00'' = Inr 90 \<and>
   re_search exact_pattern ''no summary'' = None \<and>
   re_search avg_error_pattern ''no summary'' = None \<and>
   extract_score_from_output ''no summary'' = Inr 0"
proof -
  note inst = extract_score_cases[of "''50''" "''25.0''" "[]"
      "''Average error: $10.00'' @ [CHR 0x0A] @ ''Exact matches: 50 (25.0%)''" "[''50'', ''25.0'']"
      "''Average error: $10.00''" "[''10.00'']" 10 "''no summary''"]
  have f25: "py_float ''25.0'' = Inr 25" by code_simp
  have f10: "py_float ''10.00'' = Inr 10" by code_simp
  have h1: "''50'' \<noteq> [] \<and> list_all isdigit ''50'' \<and> ''25.0'' \<noteq> [] \<and> list_all isdigdot ''25.0''"
    by code_simp
  have c1: "extract_score_from_output ''Exact matches: 50 (25.0%)'' = Inr 25"
    using inst[THEN conjunct1, THEN mp, OF h1] f25 by simp
  have h2: "re_search exact_pattern
      (''Average error: $10.00'' @ [CHR 0x0A] @ ''Exact matches: 50 (25.0%)'') = Some [''50'', ''25.0'']"
    by code_simp
  have c2: "extract_score_from_output
      (''Average error: $10.00'' @ [CHR 0x0A] @ ''Exact matches: 50 (25.0%)'') = Inr 25"
    using inst[THEN conjunct2, THEN conjunct1, THEN mp, OF h2] f25 by (simp add: group_def)
  have h3a: "re_search exact_pattern ''Average error: $10.00'' = None" by code_simp
  have h3b: "re_search avg_error_pattern ''Average error: $10.00'' = Some [''10.00'']" by code_simp
  have h3c: "py_float (group [''10.00''] 1) = Inr 10" using f10 by (simp add: group_def)
  have c3: "extract_score_from_output ''Average error: $10.00'' = Inr 90"
    using inst[THEN conjunct2, THEN conjunct2, THEN conjunct1, THEN mp, OF conjI[OF h3a conjI[OF h3b h3c]]]
    by simp
  have h4a: "re_search exact_pattern ''no summary'' = None" by code_simp
  have h4b: "re_search avg_error_pattern ''no summary'' = None" by code_simp
  have c4: "extract_score_from_output ''no summary'' = Inr 0"
    by (rule inst[THEN conjunct2, THEN conjunct2, THEN conjunct2, THEN mp, OF conjI[OF h4a h4b]])
  show ?thesis
    by (intro conjI c1 h2 c2 h3a h3b c3 h4a h4b c4)
qed

section \<open>The error report parser: one record per case line\<close>

lemma parse_lines_bound:
  "parse_lines ls True cur errs = Inr out \<Longrightarrow>
   length out \<le> length errs + (if cur = None then 0 else 1)
                  + length (case_lines
                      (takeWhile (\<lambda>line. is_section_start line \<or> \<not> is_section_end line) ls))"
proof (induction ls arbitrary: cur errs)
  case Nil
  then show ?case by simp
next
  case (Cons line ls)
  show ?case
  proof (cases "is_section_start line")
    case True
    with Cons.prems have "parse_lines ls True cur errs = Inr out" by simp
    from Cons.IH[OF this] True show ?thesis by (simp add: case_lines_def)
  next
    case ns: False
    show ?thesis
    proof (cases "is_section_end line")
      case True
      with ns Cons.prems show ?thesis by simp
    next
      case ne: False
      show ?thesis
      proof (cases "is_case_line line")
        case True
        show ?thesis
        proof (cases "re_search case_pattern line")
          case None
          with ns ne True Cons.prems have "parse_lines ls True cur errs = Inr out" by simp
          from Cons.IH[OF this] ns ne show ?thesis by (simp add: case_lines_def)
        next
          case (Some gs)
          with ns ne True Cons.prems obtain c where
            "parse_lines ls True (Some c) errs = Inr out"
            by (auto split: sum.splits)
          from Cons.IH[OF this] ns ne True show ?thesis by (simp add: case_lines_def)
        qed
      next
        case nc: False
        show ?thesis
        proof (cases "is_values_line line \<and> cur \<noteq> None")
          case True
          show ?thesis
          proof (cases "re_search values_pattern line")
            case None
            with ns ne nc True Cons.prems have "parse_lines ls True cur errs = Inr out" by simp
            from Cons.IH[OF this] ns ne show ?thesis by (simp add: case_lines_def)
          next
            case (Some gs)
            with ns ne nc True Cons.prems obtain e where
              "parse_lines ls True None (errs @ [e]) = Inr out"
              by (auto split: sum.splits)
            from Cons.IH[OF this] ns ne True show ?thesis by (auto simp add: case_lines_def)
          qed
        next
          case False
          with ns ne nc Cons.prems have "parse_lines ls True cur errs = Inr out" by auto
          from Cons.IH[OF this] ns ne show ?thesis by (simp add: case_lines_def)
        qed
      qed
    qed
  qed
qed

lemma parse_lines_before_section:
  "parse_lines ls False cur errs =
     (case dropWhile (\<lambda>line. \<not> is_section_start line) ls of
        [] \<Rightarrow> Inr errs
      | m # rest \<Rightarrow> parse_lines rest True cur errs)"
  by (induction ls) auto

lemma parse_lines_section_bound:
  assumes "parse_lines ls False None [] = Inr out"
  shows "length out \<le> length (case_lines (error_section ls))"
proof (cases "dropWhile (\<lambda>line. \<not> is_section_start line) ls")
  case Nil
  with assms show ?thesis by (simp add: parse_lines_before_section)
next
  case (Cons m rest)
  with assms have "parse_lines rest True None [] = Inr out"
    by (simp add: parse_lines_before_section)
  from parse_lines_bound[OF this] Cons show ?thesis
    by (simp add: error_section_def)
qed

lemma no_pending_skip:
  "\<not> is_section_start line \<Longrightarrow> \<not> is_section_end line \<Longrightarrow> \<not> is_case_line line \<Longrightarrow>
   parse_lines (line # ls) sec None errs = parse_lines ls sec None errs"
  by simp

lemma emit_clears_pending:
  "\<not> is_section_start line \<Longrightarrow> \<not> is_section_end line \<Longrightarrow> \<not> is_case_line line \<Longrightarrow>
   is_values_line line \<Longrightarrow> re_search values_pattern line = Some gs \<Longrightarrow>
   error_of_match c gs = Inr e \<Longrightarrow>
   parse_lines (line # ls) True (Some c) errs = parse_lines ls True None (errs @ [e])"
  by simp

text \<open>
  Claim C10.  For every report text that the parser returns records for, their number is at
  most the number of \<^verbatim>\<open>Case\<close> lines in the error section, which ends at the first end-marker
  line.  With no pending case, a line that is no marker and no \<^verbatim>\<open>Case\<close> line (so an
  \<^verbatim>\<open>Expected: ..., Got: ..., Error: ...\<close> line) leaves the parser's state as it is: it produces
  no record.  And when such a line produces a record from the pending case, the pending case
  is cleared, so that a second such line is ignored.
\<close>

theorem one_record_per_case_line:
  "(extract_errors_from_eval_output n report = Inr out \<longrightarrow>
      length out \<le> length (case_lines (error_section (split_lines report)))) \<and>
   (\<not> is_section_start line \<and> \<not> is_section_end line \<and> \<not> is_case_line line \<longrightarrow>
      parse_lines (line # ls) sec None errs = parse_lines ls sec None errs) \<and>
   (\<not> is_section_start l1 \<and> \<not> is_section_end l1 \<and> \<not> is_case_line l1 \<and> is_values_line l1 \<and>
    re_search values_pattern l1 = Some gs \<and> error_of_match c gs = Inr e \<and>
    \<not> is_section_start l2 \<and> \<not> is_section_end l2 \<and> \<not> is_case_line l2 \<longrightarrow>
      parse_lines (l1 # l2 # ls') True (Some c) errs' = parse_lines ls' True None (errs' @ [e]))"
proof (intro conjI impI)
  assume A: "extract_errors_from_eval_output n report = Inr out"
  then obtain parsed where p: "parse_lines (split_lines report) False None [] = Inr parsed"
    and o: "out = top_n n parsed"
    by (auto simp add: extract_errors_from_eval_output_def split: sum.splits)
  have "length out \<le> length parsed"
    unfolding o by (rule length_top_n)
  also have "\<dots> \<le> length (case_lines (error_section (split_lines report)))"
    by (rule parse_lines_section_bound[OF p])
  finally show "length out \<le> length (case_lines (error_section (split_lines report)))" .
next
  assume "\<not> is_section_start line \<and> \<not> is_section_end line \<and> \<not> is_case_line line"
  then show "parse_lines (line # ls) sec None errs = parse_lines ls sec None errs"
    by (simp add: no_pending_skip)
next
  assume A: "\<not> is_section_start l1 \<and> \<not> is_section_end l1 \<and> \<not> is_case_line l1 \<and> is_values_line l1 \<and>
    re_search values_pattern l1 = Some gs \<and> error_of_match c gs = Inr e \<and>
    \<not> is_section_start l2 \<and> \<not> is_section_end l2 \<and> \<not> is_case_line l2"
  then have "parse_lines (l1 # l2 # ls') True (Some c) errs'
               = parse_lines (l2 # ls') True None (errs' @ [e])"
    using emit_clears_pending[of l1 gs c e "l2 # ls'" errs'] by blast
  also have "\<dots> = parse_lines ls' True None (errs' @ [e])"
    using A no_pending_skip[of l2 ls' True "errs' @ [e]"] by blast
  finally show "parse_lines (l1 # l2 # ls') True (Some c) errs'
                  = parse_lines ls' True None (errs' @ [e])" .
qed

text \<open>
  On the sample report (the marker line, a case line and the same values line twice) the
  parser returns one record, and the section has one case line.  On the report whose section
  ends before the case line it returns none, and the section has no case line.
\<close>

theorem one_record_per_case_line_witness:
  "extract_errors_from_eval_output 10 sample_report = Inr [sample_record] \<and>
   length [sample_record] \<le> length (case_lines (error_section (split_lines sample_report))) \<and>
   length (case_lines (error_section (split_lines sample_report))) = 1 \<and>
   extract_errors_from_eval_output 10 sample_ended_report = Inr [] \<and>
   length (case_lines (error_section (split_lines sample_ended_report))) = 0 \<and>
   \<not> is_section_start sample_values_line \<and> \<not> is_section_end sample_values_line \<and>
   \<not> is_case_line sample_values_line \<and> is_values_line sample_values_line \<and>
   re_search values_pattern sample_values_line = Some [''2119.83'', ''0.00'', ''2119.83''] \<and>
   error_of_match (669, 7, 1033, 1013.03) [''2119.83'', ''0.00'', ''2119.83''] = Inr sample_record \<and>
   parse_lines [sample_values_line] True None [] = Inr [] \<and>
   parse_lines [sample_values_line, sample_values_line] True (Some (669, 7, 1033, 1013.03)) []
     = Inr [sample_record]"
proof -
  note inst = one_record_per_case_line[of 10 sample_report "[sample_record]"
      sample_values_line "[]" True "[]"
      sample_values_line "[''2119.83'', ''0.00'', ''2119.83'']" "(669, 7, 1033, 1013.03)"
      sample_record sample_values_line "[]" "[]"]
  have h1: "extract_errors_from_eval_output 10 sample_report = Inr [sample_record]"
    by code_simp
  have c1: "length [sample_record]
              \<le> length (case_lines (error_section (split_lines sample_report)))"
    by (rule inst[THEN conjunct1, THEN mp, OF h1])
  have n1: "length (case_lines (error_section (split_lines sample_report))) = 1"
    by code_simp
  have h0: "extract_errors_from_eval_output 10 sample_ended_report = Inr []"
    by code_simp
  have n0: "length (case_lines (error_section (split_lines sample_ended_report))) = 0"
    by code_simp
  have a1: "\<not> is_section_start sample_values_line" by code_simp
  have a2: "\<not> is_section_end sample_values_line" by code_simp
  have a3: "\<not> is_case_line sample_values_line" by code_simp
  have a4: "is_values_line sample_values_line" by code_simp
  have a5: "re_search values_pattern sample_values_line = Some [''2119.83'', ''0.00'', ''2119.83'']"
    by code_simp
  have a6: "error_of_match (669, 7, 1033, 1013.03) [''2119.83'', ''0.00'', ''2119.83'']
              = Inr sample_record"
    by code_simp
  have c2: "parse_lines [sample_values_line] True None [] = Inr []"
    using inst[THEN conjunct2, THEN conjunct1, THEN mp, OF conjI[OF a1 conjI[OF a2 a3]]]
    by simp
  have c3: "parse_lines [sample_values_line, sample_values_line] True
              (Some (669, 7, 1033, 1013.03)) [] = Inr [sample_record]"
    using inst[THEN conjunct2, THEN conjunct2, THEN mp,
        OF conjI[OF a1 conjI[OF a2 conjI[OF a3 conjI[OF a4 conjI[OF a5 conjI[OF a6
           conjI[OF a1 conjI[OF a2 a3]]]]]]]]]
    by simp
  show ?thesis
    by (intro conjI h1 c1 n1 h0 n0 a1 a2 a3 a4 a5 a6 c2 c3)
qed

section \<open>Initialising from the manifest\<close>





section \<open>Loading the rules\<close>















section \<open>Saving the rules\<close>

text \<open>
  Claim C2, as the code has it.  When the rules file can be opened for writing, \<open>save_rules\<close>
  goes through two states: the file truncated to nothing, which \<^verbatim>\<open>json.load\<close> rejects, and
  the file holding the serialized store.  No other path is written in either state: there is
  no temporary file and no rename.
\<close>

theorem save_rules_in_place:
  "rules_file e \<notin> read_only fs \<longrightarrow>
     save_rules_steps py_str e fs
       = [fs\<lparr>files := (files fs)(rules_file e \<mapsto> Empty_file)\<rparr>, save_rules py_str e fs] \<and>
     json_load (hd (save_rules_steps py_str e fs)) (rules_file e) = Inl JSONDecodeError \<and>
     (\<forall>st \<in> set (save_rules_steps py_str e fs). \<forall>p. p \<noteq> rules_file e \<longrightarrow> files st p = files fs p) \<and>
     json_load (save_rules py_str e fs) (rules_file e)
       = Inr (JObject (dict_of_pairs (map (\<lambda>(k, v). (py_str k, Number v)) (rules e))))"
  by (simp add: save_rules_def save_rules_steps_def json_load_def Let_def)

theorem save_rules_in_place_witness:
  "rules_file (sample_engine [((1, 10, 5), 7.5)]) \<notin> read_only no_files \<and>
   json_load (hd (save_rules_steps sample_str (sample_engine [((1, 10, 5), 7.5)]) no_files))
     ''rules.json'' = Inl JSONDecodeError \<and>
   json_load (save_rules sample_str (sample_engine [((1, 10, 5), 7.5)]) no_files) ''rules.json''
     = Inr (JObject [(''(1, 10.0, 5.0)'', Number 7.5)])"
proof -
  have h: "rules_file (sample_engine [((1, 10, 5), 7.5)]) \<notin> read_only no_files"
    by simp
  note inst = save_rules_in_place[of "sample_engine [((1, 10, 5), 7.5)]" no_files sample_str,
      THEN mp, OF h]
  have c1: "json_load (hd (save_rules_steps sample_str (sample_engine [((1, 10, 5), 7.5)]) no_files))
     ''rules.json'' = Inl JSONDecodeError"
    using inst[THEN conjunct2, THEN conjunct1] by simp
  have c2: "json_load (save_rules sample_str (sample_engine [((1, 10, 5), 7.5)]) no_files)
     ''rules.json'' = Inr (JObject [(''(1, 10.0, 5.0)'', Number 7.5)])"
    using inst[THEN conjunct2, THEN conjunct2, THEN conjunct2]
    by (simp add: dict_of_pairs_def)
  show ?thesis
    by (intro conjI h c1 c2)
qed

text \<open>
  The claim as the specification states it fails: while a store is saved over a rules file
  that held a complete JSON object, a reader can find the file empty.
\<close>

theorem save_rules_counterexample:
  "json_load (one_file ''rules.json'' (JObject [(''(1, 10.0, 5.0)'', Number 0)])) ''rules.json''
     = Inr (JObject [(''(1, 10.0, 5.0)'', Number 0)]) \<and>
   length (save_rules_steps sample_str (sample_engine [((1, 10, 5), 7.5)])
            (one_file ''rules.json'' (JObject [(''(1, 10.0, 5.0)'', Number 0)]))) = 2 \<and>
   files (hd (save_rules_steps sample_str (sample_engine [((1, 10, 5), 7.5)])
            (one_file ''rules.json'' (JObject [(''(1, 10.0, 5.0)'', Number 0)])))) ''rules.json''
     = Some Empty_file \<and>
   json_load (hd (save_rules_steps sample_str (sample_engine [((1, 10, 5), 7.5)])
            (one_file ''rules.json'' (JObject [(''(1, 10.0, 5.0)'', Number 0)])))) ''rules.json''
     = Inl JSONDecodeError \<and>
   json_load (save_rules sample_str (sample_engine [((1, 10, 5), 7.5)])
            (one_file ''rules.json'' (JObject [(''(1, 10.0, 5.0)'', Number 0)]))) ''rules.json''
     = Inr (JObject [(''(1, 10.0, 5.0)'', Number 7.5)])"
  by (simp add: save_rules_def save_rules_steps_def json_load_def dict_of_pairs_def)

section \<open>Iterations\<close>

lemma update_rules_from_errors_frame:
  "update_rules_from_errors s errors ci fs = (ci', fs') \<Longrightarrow>
   top_n_errors ci' = top_n_errors ci \<and> iteration ci' = iteration ci"
  by (auto simp add: update_rules_from_errors_def split: if_splits prod.splits)

lemma run_iteration_result:
  "\<exists>zc ci' fs'.
     run_iteration h s ci fs
       = ((fst (run_evaluation (top_n_errors ci) (h (iteration ci + 1) fs)), zc), ci', fs') \<and>
     top_n_errors ci' = top_n_errors ci \<and> iteration ci' = iteration ci + 1"
proof -
  let ?ci1 = "ci\<lparr>iteration := iteration ci + 1\<rparr>"
  obtain score errors where ev:
    "run_evaluation (top_n_errors ci) (h (iteration ci + 1) fs) = (score, errors)"
    by (cases "run_evaluation (top_n_errors ci) (h (iteration ci + 1) fs)") auto
  obtain ci2 fs2 where up: "update_rules_from_errors s errors ?ci1 fs = (ci2, fs2)"
    by (cases "update_rules_from_errors s errors ?ci1 fs") auto
  have "run_iteration h s ci fs = ((score, get_zero_count (engine ci2)), ci2, fs2)"
    by (simp add: run_iteration_def ev up)
  moreover have "top_n_errors ci2 = top_n_errors ci \<and> iteration ci2 = iteration ci + 1"
    using update_rules_from_errors_frame[OF up] by simp
  ultimately show ?thesis by (simp add: ev)
qed

lemma loop_constant_score:
  assumes H: "\<forall>i fs'. fst (run_evaluation (top_n_errors ci) (h i fs')) = 10"
  shows "\<exists>ls ci' fs'.
           improvement_loop h s 95 (Suc (Suc (Suc k)))
             \<lparr>best_score = 0, iterations_without_improvement = 0, last_score = None\<rparr> ci fs
             = (STAGNATED, ls, ci', fs') \<and> iteration ci' = iteration ci + 3 \<and>
           last_score ls = Some 10"
proof -
  obtain z1 c1 f1 where s1: "run_iteration h s ci fs = ((10, z1), c1, f1)"
    and t1: "top_n_errors c1 = top_n_errors ci" and i1: "iteration c1 = iteration ci + 1"
    using run_iteration_result[of h s ci fs] H by auto
  obtain z2 c2 f2 where s2: "run_iteration h s c1 f1 = ((10, z2), c2, f2)"
    and t2: "top_n_errors c2 = top_n_errors ci" and i2: "iteration c2 = iteration ci + 2"
    using run_iteration_result[of h s c1 f1] H t1 i1 by auto
  obtain z3 c3 f3 where s3: "run_iteration h s c2 f2 = ((10, z3), c3, f3)"
    and i3: "iteration c3 = iteration ci + 3"
    using run_iteration_result[of h s c2 f2] H t2 i2 by auto
  show ?thesis
    by (simp add: s1 s2 s3 i3 max_stagnant_iterations_def)
qed

lemma initialize_rules_frame:
  "initialize_rules s ci fs = (ci', fs') \<Longrightarrow>
   top_n_errors ci' = top_n_errors ci \<and> iteration ci' = iteration ci"
  by (auto simp add: initialize_rules_def split: prod.splits)






section \<open>Convergence\<close>


text \<open>
  Claim C8.  With target score 95 and at least 3 iterations allowed, a loop whose every
  evaluation scores 10 ends in \<open>STAGNATED\<close> (so not in \<open>CONVERGED\<close>) after exactly 3
  iterations.  The checks after an iteration come in this order: a score at or above the
  target ends the loop as \<open>CONVERGED\<close>, whatever the stagnation counter and the iterations
  left; otherwise a stagnation counter that reaches 2 ends it as \<open>STAGNATED\<close>, whatever the
  iterations left; otherwise the loop ends as \<open>EXHAUSTED\<close> when this was its last iteration.
\<close>

theorem constant_score_stagnates:
  "((\<forall>i fs'. fst (run_evaluation (top_n_errors ci) (harness i fs')) = 10) \<and> 3 \<le> max_iterations \<longrightarrow>
      fst (run_continuous_improvement harness py_str max_iterations 95 ci fs) = STAGNATED \<and>
      iteration (fst (snd (run_continuous_improvement harness py_str max_iterations 95 ci fs)))
        = iteration ci + 3) \<and>
   (target \<le> fst (fst (run_iteration harness py_str ci fs)) \<longrightarrow>
      fst (improvement_loop harness py_str target (Suc n) ls ci fs) = CONVERGED) \<and>
   (fst (fst (run_iteration harness py_str ci fs)) < target \<and>
    \<not> best_score ls < fst (fst (run_iteration harness py_str ci fs)) \<and>
    max_stagnant_iterations \<le> iterations_without_improvement ls + 1 \<longrightarrow>
      fst (improvement_loop harness py_str target (Suc n) ls ci fs) = STAGNATED) \<and>
   (fst (fst (run_iteration harness py_str ci fs)) < target \<and>
    (best_score ls < fst (fst (run_iteration harness py_str ci fs)) \<or>
     iterations_without_improvement ls + 1 < max_stagnant_iterations) \<longrightarrow>
      fst (improvement_loop harness py_str target (Suc 0) ls ci fs) = EXHAUSTED)"
proof (intro conjI impI)
  assume A: "(\<forall>i fs'. fst (run_evaluation (top_n_errors ci) (harness i fs')) = 10)
             \<and> 3 \<le> max_iterations"
  obtain ci1 fs1 where init:
    "(if get_rule_count (engine ci) = 0 then initialize_rules py_str ci fs else (ci, fs))
       = (ci1, fs1)"
    by (cases "if get_rule_count (engine ci) = 0 then initialize_rules py_str ci fs else (ci, fs)")
      auto
  have fr: "top_n_errors ci1 = top_n_errors ci \<and> iteration ci1 = iteration ci"
    using init initialize_rules_frame[of py_str ci fs ci1 fs1] by (auto split: if_splits)
  from A have "3 \<le> max_iterations" by blast
  then have "3 \<le> nat max_iterations" by linarith
  then obtain j where "nat max_iterations = 3 + j"
    using le_Suc_ex by blast
  then have k: "nat max_iterations = Suc (Suc (Suc j))" by simp
  have H: "\<forall>i fs'. fst (run_evaluation (top_n_errors ci1) (harness i fs')) = 10"
    using A fr by simp
  obtain ls ci' fs' where
    L: "improvement_loop harness py_str 95 (Suc (Suc (Suc j)))
          \<lparr>best_score = 0, iterations_without_improvement = 0, last_score = None\<rparr> ci1 fs1
          = (STAGNATED, ls, ci', fs')" and it: "iteration ci' = iteration ci1 + 3"
    using loop_constant_score[OF H, of py_str j fs1] by blast
  have R: "run_continuous_improvement harness py_str max_iterations 95 ci fs
             = (STAGNATED, ci', fs',
                (case last_score ls of
                   None \<Rightarrow> Inl NameError
                 | Some score \<Rightarrow>
                     if get_rule_count (engine ci') = 0 then Inl ZeroDivisionError
                     else Inr (of_nat (get_rule_count (engine ci') - get_zero_count (engine ci'))
                               / of_nat (get_rule_count (engine ci')) * 100)))"
    unfolding run_continuous_improvement_def init Let_def
    by (simp add: k L del: improvement_loop.simps)
  show "fst (run_continuous_improvement harness py_str max_iterations 95 ci fs) = STAGNATED"
    by (simp add: R)
  show "iteration (fst (snd (run_continuous_improvement harness py_str max_iterations 95 ci fs)))
        = iteration ci + 3"
    using it fr by (simp add: R)
next
  obtain score zc ci' fs' where R: "run_iteration harness py_str ci fs = ((score, zc), ci', fs')"
    by (cases "run_iteration harness py_str ci fs") auto
  {
    assume "target \<le> fst (fst (run_iteration harness py_str ci fs))"
    then show "fst (improvement_loop harness py_str target (Suc n) ls ci fs) = CONVERGED"
      by (simp add: R)
  }
  {
    assume "fst (fst (run_iteration harness py_str ci fs)) < target \<and>
      \<not> best_score ls < fst (fst (run_iteration harness py_str ci fs)) \<and>
      max_stagnant_iterations \<le> iterations_without_improvement ls + 1"
    then show "fst (improvement_loop harness py_str target (Suc n) ls ci fs) = STAGNATED"
      by (simp add: R)
  }
  {
    assume "fst (fst (run_iteration harness py_str ci fs)) < target \<and>
      (best_score ls < fst (fst (run_iteration harness py_str ci fs)) \<or>
       iterations_without_improvement ls + 1 < max_stagnant_iterations)"
    then show "fst (improvement_loop harness py_str target (Suc 0) ls ci fs) = EXHAUSTED"
      by (auto simp add: R max_stagnant_iterations_def)
  }
qed

lemma evaluation_scoring_10: "run_evaluation 10 report_scoring_10 = (10, [])"
  by code_simp

lemma iteration_scoring_10:
  "fst (fst (run_iteration (constant_harness report_scoring_10) no_text sample_improvement no_files))
     = 10"
  by code_simp

lemma iteration_scoring_96:
  "fst (fst (run_iteration (constant_harness report_scoring_96) no_text sample_improvement no_files))
     = 96"
  by code_simp

theorem constant_score_stagnates_witness:
  "fst (run_evaluation 10 report_scoring_10) = 10 \<and>
   fst (run_continuous_improvement (constant_harness report_scoring_10) no_text 300 95
          sample_improvement no_files) = STAGNATED \<and>
   iteration (fst (snd (run_continuous_improvement (constant_harness report_scoring_10) no_text
          300 95 sample_improvement no_files))) = 3 \<and>
   fst (improvement_loop (constant_harness report_scoring_96) no_text 95 (Suc 0)
          \<lparr>best_score = 96, iterations_without_improvement = 1, last_score = None\<rparr>
          sample_improvement no_files) = CONVERGED \<and>
   fst (improvement_loop (constant_harness report_scoring_10) no_text 95 (Suc 0)
          \<lparr>best_score = 10, iterations_without_improvement = 1, last_score = Some 10\<rparr>
          sample_improvement no_files) = STAGNATED \<and>
   fst (improvement_loop (constant_harness report_scoring_10) no_text 95 (Suc 0)
          \<lparr>best_score = 0, iterations_without_improvement = 0, last_score = None\<rparr>
          sample_improvement no_files) = EXHAUSTED"
proof -
  have e: "fst (run_evaluation 10 report_scoring_10) = 10"
    by (simp add: evaluation_scoring_10)
  have h1: "(\<forall>i fs'. fst (run_evaluation (top_n_errors sample_improvement)
              (constant_harness report_scoring_10 i fs')) = 10) \<and> (3::int) \<le> 300"
    by (simp add: evaluation_scoring_10)
  note c1 = constant_score_stagnates[where ci = sample_improvement
      and harness = "constant_harness report_scoring_10" and max_iterations = 300
      and py_str = no_text and fs = no_files, THEN conjunct1, THEN mp, OF h1]
  have h2: "(95::rat) \<le> fst (fst (run_iteration (constant_harness report_scoring_96) no_text
              sample_improvement no_files))"
    by (simp add: iteration_scoring_96)
  note c2 = constant_score_stagnates[where ci = sample_improvement
      and harness = "constant_harness report_scoring_96" and py_str = no_text and fs = no_files
      and target = 95 and n = 0
      and ls = "\<lparr>best_score = 96, iterations_without_improvement = 1, last_score = None\<rparr>",
      THEN conjunct2, THEN conjunct1, THEN mp, OF h2]
  have h3: "fst (fst (run_iteration (constant_harness report_scoring_10) no_text
                sample_improvement no_files)) < 95 \<and>
            \<not> best_score \<lparr>best_score = 10, iterations_without_improvement = 1,
                            last_score = Some 10\<rparr>
                < fst (fst (run_iteration (constant_harness report_scoring_10) no_text
                    sample_improvement no_files)) \<and>
            max_stagnant_iterations
              \<le> iterations_without_improvement
                    \<lparr>best_score = 10, iterations_without_improvement = 1,
                       last_score = Some 10\<rparr> + 1"
    by (simp add: iteration_scoring_10 max_stagnant_iterations_def)
  note c3 = constant_score_stagnates[where ci = sample_improvement
      and harness = "constant_harness report_scoring_10" and py_str = no_text and fs = no_files
      and target = 95 and n = 0
      and ls = "\<lparr>best_score = 10, iterations_without_improvement = 1, last_score = Some 10\<rparr>",
      THEN conjunct2, THEN conjunct2, THEN conjunct1, THEN mp, OF h3]
  have h4: "fst (fst (run_iteration (constant_harness report_scoring_10) no_text
                sample_improvement no_files)) < 95 \<and>
            (best_score \<lparr>best_score = 0, iterations_without_improvement = 0, last_score = None\<rparr>
                < fst (fst (run_iteration (constant_harness report_scoring_10) no_text
                    sample_improvement no_files)) \<or>
             iterations_without_improvement
                \<lparr>best_score = 0, iterations_without_improvement = 0, last_score = None\<rparr> + 1
               < max_stagnant_iterations)"
    by (simp add: iteration_scoring_10 max_stagnant_iterations_def)
  note c4 = constant_score_stagnates[where ci = sample_improvement
      and harness = "constant_harness report_scoring_10" and py_str = no_text and fs = no_files
      and target = 95
      and ls = "\<lparr>best_score = 0, iterations_without_improvement = 0, last_score = None\<rparr>",
      THEN conjunct2, THEN conjunct2, THEN conjunct2, THEN mp, OF h4]
  have i: "iteration sample_improvement + 3 = 3" by simp
  show ?thesis
    using e c1 c2 c3 c4 by (simp only: i simp_thms)
qed

end
